theory Spec2Isabelle
  imports
    Main
    "HOL-Library.AList"
    "HOL-Library.Multiset"
    "HOL-Library.Char_ord"
    "HOL-Library.List_Lexorder"
begin

section \<open>Document values\<close>

text \<open>
  The program keeps every parsed or reconstructed document as a Go value of type
  \<^verbatim>\<open>interface{}\<close>: \<^verbatim>\<open>nil\<close>, a boolean, a number, a string, a slice
  \<^verbatim>\<open>[]interface{}\<close> or a map \<^verbatim>\<open>map[string]interface{}\<close>. Numbers are only
  transported, never computed with, and are represented by integers.

  A Go map is represented by an association list with pairwise distinct keys. The order of
  the list is the order in which one \<^verbatim>\<open>range\<close> loop visits the entries; Go leaves
  that order open, so statements about all runs quantify over the orders. Assignment
  \<^verbatim>\<open>m[k] = v\<close> is \<^const>\<open>AList.update\<close>, lookup is \<^const>\<open>map_of\<close>.
\<close>

datatype val =
    VNull
  | VBool bool
  | VNum int
  | VStr string
  | VList "val list"
  | VMap "(string \<times> val) list"

type_synonym gomap = "(string \<times> val) list"

text \<open>
  The ways in which a run of \<^verbatim>\<open>unflatten\<close> can end without a document:
  \<^item> \<^verbatim>\<open>index out of range [i]\<close>, with the index;
  \<^item> \<^verbatim>\<open>interface conversion: interface {} is T, not map[string]interface {}\<close>, with
    the dynamic type \<open>T\<close> of the value found;
  \<^item> the failure of \<^verbatim>\<open>append\<close> to grow a slice.
\<close>

datatype dyntype = TNil | TBool | TNumber | TString | TSlice | TMap

fun dyntype_of :: "val \<Rightarrow> dyntype" where
  "dyntype_of VNull = TNil"
| "dyntype_of (VBool b) = TBool"
| "dyntype_of (VNum n) = TNumber"
| "dyntype_of (VStr s) = TString"
| "dyntype_of (VList l) = TSlice"
| "dyntype_of (VMap m) = TMap"

datatype panic = IndexOutOfRange int | TypeAssertion dyntype | OutOfMemory

section \<open>Functions of the Go standard library used by the program\<close>

text \<open>\<^verbatim>\<open>strings.HasSuffix(s, c)\<close> and \<^verbatim>\<open>strings.HasPrefix(s, c)\<close> for a one-byte
  string \<open>c\<close>.\<close>

definition HasSuffix1 :: "string \<Rightarrow> char \<Rightarrow> bool" where
  "HasSuffix1 s c = (s \<noteq> [] \<and> last s = c)"

definition HasPrefix1 :: "string \<Rightarrow> char \<Rightarrow> bool" where
  "HasPrefix1 s c = (s \<noteq> [] \<and> hd s = c)"

text \<open>\<^verbatim>\<open>strings.LastIndex(s, c)\<close> for a one-byte string \<open>c\<close>: the position of the last
  occurrence, \<open>-1\<close> when there is none.\<close>

fun LastIndex :: "string \<Rightarrow> char \<Rightarrow> int" where
  "LastIndex [] c = -1"
| "LastIndex (x # xs) c =
     (let r = LastIndex xs c in
      if r \<noteq> -1 then r + 1 else if x = c then 0 else -1)"

text \<open>
  \<^verbatim>\<open>strconv.Atoi\<close> on a platform with 64-bit \<^verbatim>\<open>int\<close>: an optional sign, then one
  or more decimal digits; a value outside the range of \<^verbatim>\<open>int\<close> is an error.
\<close>

definition is_digit :: "char \<Rightarrow> bool" where
  "is_digit ch = (let n = (of_char ch :: nat) in 48 \<le> n \<and> n \<le> 57)"

definition digit_val :: "char \<Rightarrow> int" where
  "digit_val ch = int (of_char ch) - 48"

fun parse_digits :: "string \<Rightarrow> int \<Rightarrow> int option" where
  "parse_digits [] n = Some n"
| "parse_digits (ch # s) n =
     (if is_digit ch then parse_digits s (n * 10 + digit_val ch) else None)"

definition Atoi :: "string \<Rightarrow> int option" where
  "Atoi s0 =
     (let neg = (s0 \<noteq> [] \<and> hd s0 = CHR ''-'');
          s = (if s0 \<noteq> [] \<and> (hd s0 = CHR ''-'' \<or> hd s0 = CHR ''+'') then tl s0 else s0)
      in if s = [] then None
         else (case parse_digits s 0 of
                 None \<Rightarrow> None
               | Some un \<Rightarrow>
                   let n = (if neg then - un else un) in
                   if - (2 ^ 63) \<le> n \<and> n \<le> 2 ^ 63 - 1 then Some n else None))"

text \<open>\<^verbatim>\<open>strings.Split(s, c)\<close> for a one-byte separator: never the empty list.\<close>

fun Split :: "string \<Rightarrow> char \<Rightarrow> string list" where
  "Split [] c = [[]]"
| "Split (x # xs) c =
     (if x = c then [] # Split xs c
      else (case Split xs c of [] \<Rightarrow> [[x]] | p # ps \<Rightarrow> (x # p) # ps))"

text \<open>\<^verbatim>\<open>strings.SplitN(s, c, 2)\<close> for a one-byte separator: split at the first
  occurrence only.\<close>

definition SplitN2 :: "string \<Rightarrow> char \<Rightarrow> string list" where
  "SplitN2 s c =
     (if c \<in> set s then [takeWhile (\<lambda>x. x \<noteq> c) s, tl (dropWhile (\<lambda>x. x \<noteq> c) s)] else [s])"

text \<open>The verb \<^verbatim>\<open>%d\<close> of \<^verbatim>\<open>fmt.Sprintf\<close> on a slice position.\<close>

fun itoa :: "nat \<Rightarrow> string" where
  "itoa n =
     (if n < 10 then [char_of (48 + n)] else itoa (n div 10) @ [char_of (48 + n mod 10)])"

declare itoa.simps [simp del]

text \<open>
  \<^verbatim>\<open>strings.TrimSpace\<close> removes leading and trailing white-space runes. The table
  lists the UTF-8 encodings of the runes for which \<^verbatim>\<open>unicode.IsSpace\<close> holds: the six
  ASCII ones, U+0085, U+00A0, U+1680, U+2000 to U+200A, U+2028, U+2029, U+202F, U+205F
  and U+3000.
\<close>

definition space_runes :: "string list" where
  "space_runes =
     [[CHR 0x09], [CHR 0x0A], [CHR 0x0B], [CHR 0x0C], [CHR 0x0D], [CHR 0x20],
      [CHR 0xC2, CHR 0x85], [CHR 0xC2, CHR 0xA0],
      [CHR 0xE1, CHR 0x9A, CHR 0x80],
      [CHR 0xE2, CHR 0x80, CHR 0x80], [CHR 0xE2, CHR 0x80, CHR 0x81],
      [CHR 0xE2, CHR 0x80, CHR 0x82], [CHR 0xE2, CHR 0x80, CHR 0x83],
      [CHR 0xE2, CHR 0x80, CHR 0x84], [CHR 0xE2, CHR 0x80, CHR 0x85],
      [CHR 0xE2, CHR 0x80, CHR 0x86], [CHR 0xE2, CHR 0x80, CHR 0x87],
      [CHR 0xE2, CHR 0x80, CHR 0x88], [CHR 0xE2, CHR 0x80, CHR 0x89],
      [CHR 0xE2, CHR 0x80, CHR 0x8A],
      [CHR 0xE2, CHR 0x80, CHR 0xA8], [CHR 0xE2, CHR 0x80, CHR 0xA9],
      [CHR 0xE2, CHR 0x80, CHR 0xAF], [CHR 0xE2, CHR 0x81, CHR 0x9F],
      [CHR 0xE3, CHR 0x80, CHR 0x80]]"

function strip_leading :: "string list \<Rightarrow> string \<Rightarrow> string" where
  "strip_leading tbl s =
     (case find (\<lambda>w. w \<noteq> [] \<and> take (length w) s = w) tbl of
        None \<Rightarrow> s
      | Some w \<Rightarrow> strip_leading tbl (drop (length w) s))"
  by pat_completeness auto
termination
proof (relation "measure (\<lambda>(tbl, s). length s)")
  show "wf (measure (\<lambda>(tbl, s). length s))" by simp
next
  fix tbl :: "string list" and s w :: string
  assume "find (\<lambda>w. w \<noteq> [] \<and> take (length w) s = w) tbl = Some w"
  then have ne: "w \<noteq> []" and t: "take (length w) s = w"
    by (auto simp: find_Some_iff)
  from t have "length (take (length w) s) = length w"
    by simp
  then have "length w \<le> length s"
    by simp
  moreover from ne have "0 < length w"
    by simp
  ultimately have "length s - length w < length s"
    by arith
  then show "((tbl, drop (length w) s), (tbl, s)) \<in> measure (\<lambda>(tbl, s). length s)"
    by simp
qed

declare strip_leading.simps [simp del]

definition TrimSpace :: "string \<Rightarrow> string" where
  "TrimSpace s =
     rev (strip_leading (map rev space_runes) (rev (strip_leading space_runes s)))"

text \<open>\<^verbatim>\<open>strings.Trim(s, cutset)\<close> for a cutset of ASCII characters.\<close>

definition Trim :: "string \<Rightarrow> string \<Rightarrow> string" where
  "Trim s cutset =
     rev (dropWhile (\<lambda>c. c \<in> set cutset) (rev (dropWhile (\<lambda>c. c \<in> set cutset) s)))"

text \<open>\<^verbatim>\<open>strings.Join(lines, "\n")\<close>.\<close>

fun Join :: "string list \<Rightarrow> string \<Rightarrow> string" where
  "Join [] sep = []"
| "Join [x] sep = x"
| "Join (x # y # ys) sep = x @ sep @ Join (y # ys) sep"

text \<open>
  \<^verbatim>\<open>filepath.Ext\<close> with the separator \<^verbatim>\<open>/\<close>: the suffix that starts at the last dot
  of the last path element, empty when that element has no dot. The scan runs from the end
  of the path; the second argument collects the bytes already passed.
\<close>

fun Ext_scan :: "string \<Rightarrow> string \<Rightarrow> string" where
  "Ext_scan [] passed = []"
| "Ext_scan (c # front) passed =
     (if c = CHR ''/'' then []
      else if c = CHR ''.'' then c # passed
      else Ext_scan front (c # passed))"

definition Ext :: "string \<Rightarrow> string" where
  "Ext path = Ext_scan (rev path) []"

text \<open>
  \<^verbatim>\<open>strings.ToLower\<close> on the ASCII letters. No rune outside ASCII has one of the letters
  of \<^verbatim>\<open>.env\<close>, \<^verbatim>\<open>.yaml\<close> or \<^verbatim>\<open>.yml\<close> as its lower case, so the comparison of a
  lowered extension with these three strings is the one the program makes.
\<close>

definition lower_char :: "char \<Rightarrow> char" where
  "lower_char c =
     (let n = (of_char c :: nat) in if 65 \<le> n \<and> n \<le> 90 then char_of (n + 32) else c)"

definition ToLower :: "string \<Rightarrow> string" where
  "ToLower s = map lower_char s"

section \<open>The key-path codec: \<^verbatim>\<open>parseArrayKey\<close>\<close>

definition parseArrayKey :: "string \<Rightarrow> string \<times> int \<times> bool" where
  "parseArrayKey key =
     (if HasSuffix1 key (CHR '']'') then
        (let bracketIdx = LastIndex key (CHR ''['') in
         if bracketIdx \<noteq> -1 then
           (let arrayKey = take (nat bracketIdx) key;
                idxStr = drop (nat bracketIdx + 1) (take (length key - 1) key)
            in case Atoi idxStr of
                 Some idx \<Rightarrow> (arrayKey, idx, True)
               | None \<Rightarrow> (key, -1, False))
         else (key, -1, False))
      else (key, -1, False))"

section \<open>\<^verbatim>\<open>unflatten\<close>\<close>

text \<open>
  The longest slice of interface values that the run-time of a 64-bit platform can hold:
  it refuses an allocation of more than \<open>2 ^ 48\<close> bytes, and an interface value takes
  16 bytes, which leaves \<open>2 ^ 44\<close> values. The run ends when \<^verbatim>\<open>append\<close> is asked for more, if the machine has not
  run out of memory before; up to this length the model takes the memory to be there.
\<close>

definition max_slice_len :: int where
  "max_slice_len = 17592186044416"

text \<open>
  The loop \<^verbatim>\<open>for len(arr) <= idx { arr = append(arr, nil) }\<close>. It does nothing when
  \<open>idx\<close> is below the length, a negative \<open>idx\<close> included; otherwise it has to reach
  the length \<open>idx + 1\<close>, and \<open>padded\<close> is the slice it then leaves.
\<close>

definition padded :: "val list \<Rightarrow> int \<Rightarrow> val list" where
  "padded arr idx = arr @ replicate (nat (idx + 1 - int (length arr))) VNull"

definition grow :: "val list \<Rightarrow> int \<Rightarrow> panic + val list" where
  "grow arr idx =
     (if int (length arr) \<le> idx \<and> max_slice_len \<le> idx then Inl OutOfMemory
      else Inr (padded arr idx))"

text \<open>
  \<open>unflatten_key parts value current\<close> is the inner loop of \<^verbatim>\<open>unflatten\<close> over the
  segments of one flat key, started at the map \<open>current\<close>. The program mutates the maps
  and slices it walks through; the function returns the map \<open>current\<close> as it is after the
  loop. Reading or writing \<^verbatim>\<open>arr[idx]\<close> with a negative \<open>idx\<close> and the unchecked
  assertion \<^verbatim>\<open>arr[idx].(map[string]interface{})\<close> on a value that is no map panic; the
  loop that grows the slice comes before both.
\<close>

fun unflatten_key :: "string list \<Rightarrow> val \<Rightarrow> gomap \<Rightarrow> panic + gomap" where
  "unflatten_key [] v current = Inr current"
| "unflatten_key (part # rest) v current =
     (case parseArrayKey part of (key, idx, isArray) \<Rightarrow>
      let isLast = (rest = []) in
      if isArray then
        (case grow (case map_of current key of Some (VList a) \<Rightarrow> a | _ \<Rightarrow> []) idx of
           Inl e \<Rightarrow> Inl e
         | Inr arr \<Rightarrow>
             if idx < 0 then Inl (IndexOutOfRange idx)
             else if isLast then Inr (AList.update key (VList (arr[nat idx := v])) current)
             else
               (let arr' = (case arr ! nat idx of VNull \<Rightarrow> arr[nat idx := VMap []] | _ \<Rightarrow> arr) in
                case arr' ! nat idx of
                  VMap next \<Rightarrow>
                    (case unflatten_key rest v next of
                       Inl e \<Rightarrow> Inl e
                     | Inr next' \<Rightarrow>
                         Inr (AList.update key (VList (arr'[nat idx := VMap next'])) current))
                | other \<Rightarrow> Inl (TypeAssertion (dyntype_of other))))
      else if isLast then Inr (AList.update key v current)
      else
        (let current' = (case map_of current key of
                           None \<Rightarrow> AList.update key (VMap []) current
                         | Some _ \<Rightarrow> current) in
         case map_of current' key of
           Some (VMap next) \<Rightarrow>
             (case unflatten_key rest v next of
                Inl e \<Rightarrow> Inl e
              | Inr next' \<Rightarrow> Inr (AList.update key (VMap next') current'))
         | _ \<Rightarrow> unflatten_key rest v current'))"

text \<open>The outer loop over the entries of the flat map, in the order of one run.\<close>

fun unflatten_loop :: "gomap \<Rightarrow> gomap \<Rightarrow> panic + gomap" where
  "unflatten_loop [] root = Inr root"
| "unflatten_loop ((flatKey, v) # flat) root =
     (case unflatten_key (Split flatKey (CHR ''.'')) v root of
        Inl e \<Rightarrow> Inl e
      | Inr root' \<Rightarrow> unflatten_loop flat root')"

definition unflatten :: "gomap \<Rightarrow> panic + gomap" where
  "unflatten flat = unflatten_loop flat []"

section \<open>\<^verbatim>\<open>flatten\<close>\<close>

text \<open>
  \<open>flatten prefix in out\<close> returns the map \<open>out\<close> as it is after the call;
  \<open>flatten_items\<close> is the loop over the elements of a slice.
\<close>

fun flatten :: "string \<Rightarrow> gomap \<Rightarrow> gomap \<Rightarrow> gomap"
  and flatten_items :: "string \<Rightarrow> nat \<Rightarrow> val list \<Rightarrow> gomap \<Rightarrow> gomap" where
  "flatten prefix [] out = out"
| "flatten prefix ((k, v) # rest) out =
     (let key = (if prefix \<noteq> [] then prefix @ ''.'' @ k else k) in
      flatten prefix rest
        (case v of
           VMap m \<Rightarrow> flatten key m out
         | VList l \<Rightarrow> flatten_items key 0 l out
         | _ \<Rightarrow> AList.update key v out))"
| "flatten_items key i [] out = out"
| "flatten_items key i (item # items) out =
     (let itemKey = key @ ''['' @ itoa i @ '']'' in
      flatten_items key (Suc i) items
        (case item of
           VMap m \<Rightarrow> flatten itemKey m out
         | _ \<Rightarrow> AList.update itemKey item out))"

section \<open>The \<^verbatim>\<open>.env\<close> parser\<close>

text \<open>
  \<open>parseEnv_loop\<close> is the loop of \<^verbatim>\<open>parseEnvFile\<close> over the lines that the scanner
  delivers; opening the file and cutting it into lines are outside the model.
\<close>

fun parseEnv_loop :: "string list \<Rightarrow> gomap \<Rightarrow> gomap" where
  "parseEnv_loop [] result = result"
| "parseEnv_loop (text # more) result =
     (let line = TrimSpace text in
      if line = [] \<or> HasPrefix1 line (CHR ''#'') then parseEnv_loop more result
      else
        (let parts = SplitN2 line (CHR ''='') in
         if length parts \<noteq> 2 then parseEnv_loop more result
         else
           (let key = TrimSpace (parts ! 0);
                value = Trim (TrimSpace (parts ! 1)) [CHR 0x22, CHR 0x27]
            in parseEnv_loop more (AList.update key (VStr value) result))))"

definition parseEnvFile :: "string list \<Rightarrow> gomap" where
  "parseEnvFile lines = parseEnv_loop lines []"

section \<open>Forward mode: merging the parsed inputs\<close>

datatype fatal =
    ParseFailed string
  | UnsupportedOutputExtension string
  | Panicked panic

text \<open>The loop \<^verbatim>\<open>for k, v := range parsed { flat[k] = v }\<close>.\<close>

fun copy_into :: "gomap \<Rightarrow> gomap \<Rightarrow> gomap" where
  "copy_into [] flat = flat"
| "copy_into ((k, v) # parsed) flat = copy_into parsed (AList.update k v flat)"

text \<open>
  The loop of \<^verbatim>\<open>runNormal\<close> over the inputs. Each element of the list is what
  \<^verbatim>\<open>detectAndParse\<close> returned for one input path: an error message or a flat map.
\<close>

fun runNormal_loop :: "(string + gomap) list \<Rightarrow> gomap \<Rightarrow> fatal + gomap" where
  "runNormal_loop [] flat = Inr flat"
| "runNormal_loop (Inl err # inputs) flat = Inl (ParseFailed err)"
| "runNormal_loop (Inr parsed # inputs) flat = runNormal_loop inputs (copy_into parsed flat)"

definition merge :: "gomap list \<Rightarrow> fatal + gomap" where
  "merge mappings = runNormal_loop (map Inr mappings) []"

section \<open>Reverse mode\<close>

definition sortedKeys :: "gomap \<Rightarrow> string list" where
  "sortedKeys m = sort (map fst m)"

text \<open>
  The text that \<^verbatim>\<open>writeEnv\<close> writes. The rendering of a value by the verb
  \<^verbatim>\<open>%v\<close> is a parameter.
\<close>

definition writeEnv :: "(val \<Rightarrow> string) \<Rightarrow> gomap \<Rightarrow> string" where
  "writeEnv fmt_v data =
     Join (map (\<lambda>k. k @ [CHR ''='', CHR 0x22]
                       @ fmt_v (case map_of data k of Some v \<Rightarrow> v | None \<Rightarrow> VNull)
                       @ [CHR 0x22])
               (sortedKeys data)) [CHR 0x0A]
     @ [CHR 0x0A]"

text \<open>
  \<^verbatim>\<open>runReverse\<close> after the input has been parsed: which serializer is called, on which
  data and path, or how the run ends otherwise.
\<close>

datatype serializer_call =
    CallWriteEnv gomap string
  | CallWriteYAML gomap string

definition runReverse :: "gomap \<Rightarrow> string \<Rightarrow> fatal + serializer_call" where
  "runReverse data outputPath =
     (let ext = ToLower (Ext outputPath) in
      if ext = ''.env'' then Inr (CallWriteEnv data outputPath)
      else if ext = ''.yaml'' \<or> ext = ''.yml'' then
        (case unflatten data of
           Inl p \<Rightarrow> Inl (Panicked p)
         | Inr nested \<Rightarrow> Inr (CallWriteYAML nested outputPath))
      else Inl (UnsupportedOutputExtension outputPath))"

section \<open>Predicates on flat maps\<close>

text \<open>
  The scalar document values: null, booleans, numbers and strings. The values of a flat
  map are scalars.
\<close>

definition is_scalar :: "val \<Rightarrow> bool" where
  "is_scalar v = (case v of VList l \<Rightarrow> False | VMap m \<Rightarrow> False | _ \<Rightarrow> True)"

text \<open>A flat key that is neither nested (it has no dot) nor an array element
  (\<^const>\<open>parseArrayKey\<close> finds no index).\<close>

definition plain_key :: "string \<Rightarrow> bool" where
  "plain_key k = (CHR ''.'' \<notin> set k \<and> \<not> snd (snd (parseArrayKey k)))"

section \<open>Documents up to the order of map entries\<close>

text \<open>
  The insertion order of a Go map is not part of its value. A document up to the order of
  the entries of its maps is a value of the type \<open>doc\<close>, where a map is a function from
  keys to optional values; \<open>doc_of\<close> and \<open>docmap_of\<close> forget the order of the
  association lists.
\<close>

datatype doc =
    DNull
  | DBool bool
  | DNum int
  | DStr string
  | DList "doc list"
  | DMap "string \<Rightarrow> doc option"

fun doc_of :: "val \<Rightarrow> doc" where
  "doc_of VNull = DNull"
| "doc_of (VBool b) = DBool b"
| "doc_of (VNum n) = DNum n"
| "doc_of (VStr s) = DStr s"
| "doc_of (VList l) = DList (map doc_of l)"
| "doc_of (VMap m) = DMap (map_of (map (map_prod id doc_of) m))"

definition docmap_of :: "gomap \<Rightarrow> string \<Rightarrow> doc option" where
  "docmap_of m = map_of (map (map_prod id doc_of) m)"

text \<open>
  The path of a flat key: its segments as \<^const>\<open>unflatten_key\<close> decodes them, each a
  name with the index that \<^const>\<open>parseArrayKey\<close> finds, if any.
\<close>

type_synonym path = "(string \<times> int option) list"



text \<open>
  Two segments are separate when they have different names, or the same name and two
  different indices. Two paths are independent when they run through equal segments up to
  a place where both continue, with separate segments: neither path is an initial part of
  the other (or equal to it), and at the place where they part they do not use one name
  once with and once without an index.
\<close>

fun sep :: "string \<times> int option \<Rightarrow> string \<times> int option \<Rightarrow> bool" where
  "sep (k, Some i) (k', Some j) = (k \<noteq> k' \<or> i \<noteq> j)"
| "sep (k, None) (k', Some j) = (k \<noteq> k')"
| "sep (k, Some i) (k', None) = (k \<noteq> k')"
| "sep (k, None) (k', None) = (k \<noteq> k')"

fun indep :: "path \<Rightarrow> path \<Rightarrow> bool" where
  "indep (s # p) (t # q) = (sep s t \<or> (s = t \<and> indep p q))"
| "indep [] q = False"
| "indep p [] = False"


text \<open>
  The inner loop of \<^verbatim>\<open>unflatten\<close> on documents up to order. At a segment the loop
  either enters the map below it (\<open>enter\<close>: the map under a plain name, created when
  the name is absent, or the map in the slot of a list, created when the slot is
  \<^verbatim>\<open>nil\<close>), or writes a value there (\<open>leave\<close>). The lemma
  \<open>unflatten_key_sim\<close> below shows that \<open>put_path\<close> is what
  \<^const>\<open>unflatten_key\<close> does on a path with good indices; \<open>None\<close> stands for a
  panic.
\<close>

definition old_list :: "(string \<Rightarrow> doc option) \<Rightarrow> string \<Rightarrow> doc list" where
  "old_list m k = (case m k of Some (DList a) \<Rightarrow> a | _ \<Rightarrow> [])"




text \<open>
  A segment has a good index when it has none, or one that is not negative and below
  \<^const>\<open>max_slice_len\<close>: the loop that grows the slice then returns, and
  \<^verbatim>\<open>arr[idx]\<close> is in range.
\<close>

fun good_index :: "string \<times> int option \<Rightarrow> bool" where
  "good_index (k, None) = True"
| "good_index (k, Some i) = (0 \<le> i \<and> i < max_slice_len)"

definition good_path :: "path \<Rightarrow> bool" where
  "good_path p = list_all good_index p"



text \<open>What a run returned, up to order; \<open>None\<close> when it ended in a panic.\<close>

definition returned :: "panic + gomap \<Rightarrow> (string \<Rightarrow> doc option) option" where
  "returned r = (case r of Inl e \<Rightarrow> None | Inr m \<Rightarrow> Some (docmap_of m))"





section \<open>Array round trip\<close>

text \<open>
  Claim C1. Flattening the document \<^verbatim>\<open>{"list":[{"a":1},{"a":2}]}\<close> with the empty
  prefix gives exactly the flat map \<^verbatim>\<open>{"list[0].a":1, "list[1].a":2}\<close>, and
  unflattening that flat map gives the document back, whichever of the two entries the
  loop visits first.
\<close>

theorem array_round_trip:
  "flatten '''' [(''list'', VList [VMap [(''a'', VNum 1)], VMap [(''a'', VNum 2)]])] []
     = [(''list[0].a'', VNum 1), (''list[1].a'', VNum 2)]
   \<and> unflatten [(''list[0].a'', VNum 1), (''list[1].a'', VNum 2)]
     = Inr [(''list'', VList [VMap [(''a'', VNum 1)], VMap [(''a'', VNum 2)]])]
   \<and> unflatten [(''list[1].a'', VNum 2), (''list[0].a'', VNum 1)]
     = Inr [(''list'', VList [VMap [(''a'', VNum 1)], VMap [(''a'', VNum 2)]])]"
  by code_simp

section \<open>Reverse mode: what the serializers receive\<close>

text \<open>
  Claim C2, as stated: in reverse mode both serializers receive the unflattened document.
  For the output path \<^verbatim>\<open>out.env\<close> and the flat map \<^verbatim>\<open>{"a.b":"1"}\<close> the env
  serializer receives the flat map itself, which differs from the document that
  \<^const>\<open>unflatten\<close> builds from it.
\<close>

theorem reverse_env_gets_flat_map:
  "runReverse [(''a.b'', VStr ''1'')] ''out.env''
     = Inr (CallWriteEnv [(''a.b'', VStr ''1'')] ''out.env'')
   \<and> unflatten [(''a.b'', VStr ''1'')] = Inr [(''a'', VMap [(''b'', VStr ''1'')])]
   \<and> [(''a.b'', VStr ''1'')] \<noteq> [(''a'', VMap [(''b'', VStr ''1'')])]"
  by code_simp

text \<open>
  Claim C2, amended: for an output path with the extension \<^verbatim>\<open>.env\<close> the env
  serializer receives the parsed flat map unchanged; for \<^verbatim>\<open>.yaml\<close> and
  \<^verbatim>\<open>.yml\<close> the YAML serializer receives the document that \<^const>\<open>unflatten\<close>
  returns for the flat map.
\<close>

theorem runReverse_serializer_data:
  "(ToLower (Ext outputPath) = ''.env'' \<longrightarrow>
      runReverse data outputPath = Inr (CallWriteEnv data outputPath))
   \<and> (ToLower (Ext outputPath) = ''.yaml'' \<or> ToLower (Ext outputPath) = ''.yml'' \<longrightarrow>
      (\<forall>nested. unflatten data = Inr nested \<longrightarrow>
         runReverse data outputPath = Inr (CallWriteYAML nested outputPath)))"
  by (simp add: runReverse_def Let_def)

theorem runReverse_serializer_data_witness:
  "runReverse [(''a.b'', VStr ''1'')] ''out.env''
     = Inr (CallWriteEnv [(''a.b'', VStr ''1'')] ''out.env'')
   \<and> runReverse [(''a.b'', VStr ''1'')] ''conf/out.YML''
     = Inr (CallWriteYAML [(''a'', VMap [(''b'', VStr ''1'')])] ''conf/out.YML'')"
proof -
  have e: "ToLower (Ext ''out.env'') = ''.env''"
    by code_simp
  have y: "ToLower (Ext ''conf/out.YML'') = ''.yml''"
    by code_simp
  have u: "unflatten [(''a.b'', VStr ''1'')] = Inr [(''a'', VMap [(''b'', VStr ''1'')])]"
    by code_simp
  from runReverse_serializer_data [of "''out.env''" "[(''a.b'', VStr ''1'')]"] e
    runReverse_serializer_data [of "''conf/out.YML''" "[(''a.b'', VStr ''1'')]"] y u
  show ?thesis
    by blast
qed

section \<open>Reverse mode: the output extension\<close>

text \<open>
  Claim C8, as stated: the extension \<^verbatim>\<open>.json\<close> selects a serializer in reverse mode.
  The run with the output path \<^verbatim>\<open>output.json\<close>, the default of the flag
  \<^verbatim>\<open>-o\<close>, ends with the error for an unsupported extension.
\<close>

theorem reverse_json_unsupported:
  "runReverse [(''k'', VStr ''v'')] ''output.json''
     = Inl (UnsupportedOutputExtension ''output.json'')"
  by code_simp

text \<open>
  Claim C8, amended: in reverse mode the extension \<^verbatim>\<open>.env\<close> reaches the env
  serializer; \<^verbatim>\<open>.yaml\<close> and \<^verbatim>\<open>.yml\<close> reach the YAML serializer unless
  \<^const>\<open>unflatten\<close> panics; every other extension, \<^verbatim>\<open>.json\<close> among them, ends the
  run with the error for an unsupported extension. Extensions are compared in lower case.
\<close>

theorem runReverse_extension_dispatch:
  "(ToLower (Ext outputPath) = ''.env'' \<longrightarrow>
      (\<exists>d. runReverse data outputPath = Inr (CallWriteEnv d outputPath)))
   \<and> (ToLower (Ext outputPath) = ''.yaml'' \<or> ToLower (Ext outputPath) = ''.yml'' \<longrightarrow>
        (\<exists>d. runReverse data outputPath = Inr (CallWriteYAML d outputPath))
        \<or> (\<exists>p. unflatten data = Inl p \<and> runReverse data outputPath = Inl (Panicked p)))
   \<and> (ToLower (Ext outputPath) \<notin> {''.env'', ''.yaml'', ''.yml''} \<longrightarrow>
        runReverse data outputPath = Inl (UnsupportedOutputExtension outputPath))"
  by (auto simp: runReverse_def Let_def split: sum.splits)

theorem runReverse_extension_dispatch_witness:
  "(\<exists>d. runReverse [(''k'', VStr ''v'')] ''out.env'' = Inr (CallWriteEnv d ''out.env''))
   \<and> (\<exists>d. runReverse [(''k'', VStr ''v'')] ''out.yaml'' = Inr (CallWriteYAML d ''out.yaml''))
   \<and> runReverse [(''k'', VStr ''v'')] ''out.toml'' = Inl (UnsupportedOutputExtension ''out.toml'')"
proof -
  have e: "ToLower (Ext ''out.env'') = ''.env''"
    by code_simp
  have y: "ToLower (Ext ''out.yaml'') = ''.yaml''"
    by code_simp
  have t: "ToLower (Ext ''out.toml'') \<notin> {''.env'', ''.yaml'', ''.yml''}"
    by code_simp
  have u: "unflatten [(''k'', VStr ''v'')] = Inr [(''k'', VStr ''v'')]"
    by code_simp
  from runReverse_extension_dispatch [of "''out.env''" "[(''k'', VStr ''v'')]"] e
    runReverse_extension_dispatch [of "''out.yaml''" "[(''k'', VStr ''v'')]"] y u
    runReverse_extension_dispatch [of "''out.toml''" "[(''k'', VStr ''v'')]"] t
  show ?thesis
    by (metis Inl_Inr_False)
qed

section \<open>The key-path codec on a negative index\<close>

text \<open>
  Claim C6: \<^const>\<open>parseArrayKey\<close> reports an array element exactly for a segment
  \<^verbatim>\<open>name[n]\<close> with a non-negative integer \<open>n\<close>, and returns every other segment
  unchanged. The code at the segment \<^verbatim>\<open>a[-1]\<close>: \<^verbatim>\<open>strconv.Atoi\<close> accepts the sign,
  the segment is reported as element \<open>-1\<close> of \<^verbatim>\<open>a\<close>, and \<^const>\<open>unflatten\<close> on the
  flat map \<^verbatim>\<open>{"a[-1]":"x"}\<close> panics on \<^verbatim>\<open>arr[idx]\<close>. The segments
  \<^verbatim>\<open>item[x]\<close> and \<^verbatim>\<open>item[7]\<close> are decoded as the claim says.
\<close>

theorem parseArrayKey_negative_index:
  "parseArrayKey ''a[-1]'' = (''a'', -1, True)
   \<and> unflatten [(''a[-1]'', VStr ''x'')] = Inl (IndexOutOfRange (-1))
   \<and> parseArrayKey ''item[x]'' = (''item[x]'', -1, False)
   \<and> parseArrayKey ''item[7]'' = (''item'', 7, True)"
  by code_simp

section \<open>An indexed segment whose slot is taken\<close>

text \<open>
  Claim C4: at a non-terminal segment with an index, \<^verbatim>\<open>unflatten\<close> makes the slot a
  map whatever it held before, and descends. The code replaces only a \<^verbatim>\<open>nil\<close> slot:
  with the string \<^verbatim>\<open>"x"\<close> in slot \<open>0\<close> of \<^verbatim>\<open>a\<close>, the key \<^verbatim>\<open>a[0].b\<close> panics
  on the type assertion, as does the flat map \<^verbatim>\<open>{"a[0]":"x", "a[0].b":1}\<close> when
  \<^verbatim>\<open>a[0]\<close> is visited first; the key \<^verbatim>\<open>a[-1].b\<close> panics on the index. A value
  under the name that is no list is replaced by a new list, as the claim says.
\<close>

theorem unflatten_occupied_slot_panics:
  "unflatten_key [''a[0]'', ''b''] (VNum 1) [(''a'', VList [VStr ''x''])]
       = Inl (TypeAssertion TString)
   \<and> unflatten [(''a[0]'', VStr ''x''), (''a[0].b'', VNum 1)] = Inl (TypeAssertion TString)
   \<and> unflatten [(''a[-1].b'', VNum 1)] = Inl (IndexOutOfRange (-1))
   \<and> unflatten_key [''a[1]'', ''b''] (VNum 1) [(''a'', VStr ''x'')]
       = Inr [(''a'', VList [VNull, VMap [(''b'', VNum 1)]])]"
  by code_simp

section \<open>Empty collections\<close>





section \<open>Merging\<close>

lemma copy_into_map_of:
  "distinct (map fst parsed) \<Longrightarrow>
     map_of (copy_into parsed flat) = map_of flat ++ map_of parsed"
proof (induction parsed arbitrary: flat)
  case Nil
  then show ?case by simp
next
  case (Cons e parsed)
  obtain k v where e: "e = (k, v)"
    by (cases e)
  from Cons.prems e have fresh: "map_of parsed k = None" and d: "distinct (map fst parsed)"
    by (auto simp: map_of_eq_None_iff)
  have "map_of (copy_into (e # parsed) flat) = (map_of flat)(k \<mapsto> v) ++ map_of parsed"
    unfolding e copy_into.simps Cons.IH [OF d] by (simp only: update_conv')
  also have "\<dots> = map_of flat ++ map_of (e # parsed)"
    unfolding e using fresh by (auto simp: fun_eq_iff map_add_def split: option.splits)
  finally show ?case .
qed

lemma copy_into_distinct:
  "distinct (map fst flat) \<Longrightarrow> distinct (map fst (copy_into parsed flat))"
  by (induction parsed arbitrary: flat) (auto simp: distinct_update)

lemma fold_copy_into_distinct:
  "distinct (map fst flat) \<Longrightarrow> distinct (map fst (fold copy_into ms flat))"
  by (induction ms arbitrary: flat) (auto simp: copy_into_distinct)

lemma runNormal_loop_parsed:
  "runNormal_loop (map Inr ms) flat = Inr (fold copy_into ms flat)"
  by (induction ms arbitrary: flat) simp_all

lemma fold_copy_into_last_wins:
  assumes "\<forall>m\<in>set ms. distinct (map fst m)"
  shows "map_of (fold copy_into ms flat) k =
           (let fs = filter (\<lambda>m. k \<in> fst ` set m) ms
            in if fs = [] then map_of flat k else map_of (last fs) k)"
  using assms
proof (induction ms rule: rev_induct)
  case Nil
  then show ?case by simp
next
  case (snoc m ms)
  then have d: "distinct (map fst m)" and ih: "map_of (fold copy_into ms flat) k =
           (let fs = filter (\<lambda>m. k \<in> fst ` set m) ms
            in if fs = [] then map_of flat k else map_of (last fs) k)"
    by simp_all
  have step: "map_of (fold copy_into (ms @ [m]) flat) k
                = (map_of (fold copy_into ms flat) ++ map_of m) k"
    using copy_into_map_of [OF d] by simp
  show ?case
  proof (cases "k \<in> fst ` set m")
    case True
    then obtain v where "map_of m k = Some v"
      by (metis domD dom_map_of_conv_image_fst)
    with True step show ?thesis
      by (simp add: Let_def map_add_def)
  next
    case False
    then have "map_of m k = None"
      by (simp add: map_of_eq_None_iff)
    with False step ih show ?thesis
      by (simp add: Let_def map_add_def)
  qed
qed

text \<open>
  Claim C7. Merging a sequence of flat maps returns a flat map and no error; it maps a key
  to the value that the last map of the sequence containing the key gives it, and has no
  entry for a key that none of them contains.
\<close>

theorem merge_last_input_wins:
  assumes "\<forall>m\<in>set mappings. distinct (map fst m)"
  shows "\<exists>flat. merge mappings = Inr flat \<and> distinct (map fst flat) \<and>
           (\<forall>k. map_of flat k =
              (let fs = filter (\<lambda>m. k \<in> fst ` set m) mappings
               in if fs = [] then None else map_of (last fs) k))"
proof -
  have m: "merge mappings = Inr (fold copy_into mappings [])"
    by (simp add: merge_def runNormal_loop_parsed)
  have d: "distinct (map fst (fold copy_into mappings []))"
    by (rule fold_copy_into_distinct) simp
  show ?thesis
    using m d fold_copy_into_last_wins [OF assms, of "[]"] by simp
qed

theorem merge_last_input_wins_witness:
  "\<exists>flat. merge [[(''k'', VStr ''v1''), (''a'', VNum 1)], [(''k'', VStr ''v2'')]] = Inr flat
      \<and> map_of flat ''k'' = Some (VStr ''v2'') \<and> map_of flat ''a'' = Some (VNum 1)
      \<and> map_of flat ''z'' = None"
proof -
  have h: "\<forall>m\<in>set [[(''k'', VStr ''v1''), (''a'', VNum 1)], [(''k'', VStr ''v2'')]].
             distinct (map fst m)"
    by simp
  from merge_last_input_wins [OF h] obtain flat where
    f: "merge [[(''k'', VStr ''v1''), (''a'', VNum 1)], [(''k'', VStr ''v2'')]] = Inr flat"
    and l: "\<And>k. map_of flat k =
              (let fs = filter (\<lambda>m. k \<in> fst ` set m)
                          [[(''k'', VStr ''v1''), (''a'', VNum 1)], [(''k'', VStr ''v2'')]]
               in if fs = [] then None else map_of (last fs) k)"
    by blast
  have "map_of flat ''k'' = Some (VStr ''v2'')"
    unfolding l by simp
  moreover have "map_of flat ''a'' = Some (VNum 1)"
    unfolding l by simp
  moreover have "map_of flat ''z'' = None"
    unfolding l by simp
  ultimately show ?thesis
    using f by blast
qed

section \<open>Lines of an env file without a separator\<close>

lemma strip_leading_decomp:
  "\<exists>a. s = a @ strip_leading tbl s \<and> set a \<subseteq> \<Union> (set ` set tbl)"
proof (induction tbl s rule: strip_leading.induct)
  case (1 tbl s)
  show ?case
  proof (cases "find (\<lambda>w. w \<noteq> [] \<and> take (length w) s = w) tbl")
    case None
    then have "strip_leading tbl s = s"
      by (simp add: strip_leading.simps)
    then show ?thesis
      by simp
  next
    case (Some w)
    then have w: "w \<in> set tbl" and t: "take (length w) s = w"
      by (auto simp: find_Some_iff)
    from Some have eq: "strip_leading tbl s = strip_leading tbl (drop (length w) s)"
      by (simp add: strip_leading.simps [of tbl s])
    from "1.IH" [OF Some] obtain a where
      a: "drop (length w) s = a @ strip_leading tbl (drop (length w) s)"
         "set a \<subseteq> \<Union> (set ` set tbl)"
      by blast
    have "s = w @ drop (length w) s"
      using t by (metis append_take_drop_id)
    with a eq have "s = (w @ a) @ strip_leading tbl s"
      by simp
    moreover from a w have "set (w @ a) \<subseteq> \<Union> (set ` set tbl)"
      by auto
    ultimately show ?thesis
      by blast
  qed
qed

lemma eq_not_space: "CHR ''='' \<notin> \<Union> (set ` set space_runes)"
  by (simp add: space_runes_def)

lemma TrimSpace_eq_sign: "CHR ''='' \<in> set (TrimSpace s) \<longleftrightarrow> CHR ''='' \<in> set s"
proof -
  obtain a where a: "s = a @ strip_leading space_runes s" "set a \<subseteq> \<Union> (set ` set space_runes)"
    using strip_leading_decomp by blast
  obtain b where b: "rev (strip_leading space_runes s) = b @ rev (TrimSpace s)"
      "set b \<subseteq> \<Union> (set ` set (map rev space_runes))"
    using strip_leading_decomp [of "rev (strip_leading space_runes s)" "map rev space_runes"]
    by (auto simp: TrimSpace_def)
  from b(2) have b': "set b \<subseteq> \<Union> (set ` set space_runes)"
    by auto
  from b(1) have "strip_leading space_runes s = TrimSpace s @ rev b"
    by (metis rev_append rev_rev_ident)
  with a(1) have "set s = set a \<union> set (TrimSpace s) \<union> set b"
    by (metis set_append set_rev Un_assoc)
  with a(2) b' eq_not_space show ?thesis
    by auto
qed

lemma parseEnv_loop_skip:
  assumes "CHR ''='' \<notin> set ln"
  shows "parseEnv_loop (ln # rest) result = parseEnv_loop rest result"
proof -
  from assms have "CHR ''='' \<notin> set (TrimSpace ln)"
    by (simp add: TrimSpace_eq_sign)
  then have "SplitN2 (TrimSpace ln) (CHR ''='') = [TrimSpace ln]"
    by (simp add: SplitN2_def)
  then show ?thesis
    by (simp add: Let_def)
qed

lemma parseEnv_loop_filter:
  "parseEnv_loop lns result = parseEnv_loop (filter (\<lambda>l. CHR ''='' \<in> set l) lns) result"
proof (induction lns arbitrary: result)
  case Nil
  show ?case by simp
next
  case (Cons ln rest)
  show ?case
  proof (cases "CHR ''='' \<in> set ln")
    case False
    then show ?thesis
      using Cons.IH [of result] by (simp add: parseEnv_loop_skip del: parseEnv_loop.simps)
  next
    case True
    then have f: "filter (\<lambda>l. CHR ''='' \<in> set l) (ln # rest)
                   = ln # filter (\<lambda>l. CHR ''='' \<in> set l) rest"
      by simp
    show ?thesis
      unfolding f parseEnv_loop.simps Let_def
      using Cons.IH by presburger
  qed
qed

text \<open>
  Claim C10. The result of the env parser is the result for the lines that contain
  \<^verbatim>\<open>=\<close>: a line without it adds no entry and raises no error.
\<close>

theorem parseEnvFile_skips_lines_without_separator:
  "parseEnvFile lines = parseEnvFile (filter (\<lambda>l. CHR ''='' \<in> set l) lines)
   \<and> parseEnvFile [''FOO=bar'', '''', ''# c = d'', ''NOSEPARATOR'', '' A = b=c '']
       = [(''FOO'', VStr ''bar''), (''A'', VStr ''b=c'')]"
proof
  show "parseEnvFile lines = parseEnvFile (filter (\<lambda>l. CHR ''='' \<in> set l) lines)"
    unfolding parseEnvFile_def by (rule parseEnv_loop_filter)
  show "parseEnvFile [''FOO=bar'', '''', ''# c = d'', ''NOSEPARATOR'', '' A = b=c '']
       = [(''FOO'', VStr ''bar''), (''A'', VStr ''b=c'')]"
    by code_simp
qed

section \<open>Round trip on plain keys\<close>

lemma Split_no_separator: "c \<notin> set s \<Longrightarrow> Split s c = [s]"
  by (induction s) auto

lemma update_fresh: "k \<notin> fst ` set al \<Longrightarrow> AList.update k v al = al @ [(k, v)]"
  by (induction al) auto

lemma parseArrayKey_not_array:
  "\<not> snd (snd (parseArrayKey k)) \<Longrightarrow> parseArrayKey k = (k, -1, False)"
  by (auto simp: parseArrayKey_def Let_def split: if_splits option.splits)

lemma unflatten_key_plain:
  "plain_key k \<Longrightarrow> unflatten_key (Split k (CHR ''.'')) v current = Inr (AList.update k v current)"
  by (simp add: plain_key_def Split_no_separator parseArrayKey_not_array)

lemma unflatten_loop_plain:
  "\<forall>e\<in>set flat. plain_key (fst e) \<Longrightarrow> distinct (map fst (root @ flat)) \<Longrightarrow>
     unflatten_loop flat root = Inr (root @ flat)"
proof (induction flat arbitrary: root)
  case Nil
  then show ?case by simp
next
  case (Cons e flat)
  obtain k v where e: "e = (k, v)"
    by (cases e)
  from Cons.prems e have k: "plain_key k" and fresh: "k \<notin> fst ` set root"
    by auto
  from Cons.prems e have "distinct (map fst ((root @ [(k, v)]) @ flat))"
    by auto
  with Cons.IH [of "root @ [(k, v)]"] Cons.prems(1)
  have "unflatten_loop flat (root @ [(k, v)]) = Inr ((root @ [(k, v)]) @ flat)"
    by simp
  with k fresh e show ?case
    by (simp add: unflatten_key_plain update_fresh)
qed

lemma flatten_scalars:
  "\<forall>e\<in>set doc. is_scalar (snd e) \<Longrightarrow> distinct (map fst (out @ doc)) \<Longrightarrow>
     flatten '''' doc out = out @ doc"
proof (induction doc arbitrary: out)
  case Nil
  then show ?case by simp
next
  case (Cons e doc)
  obtain k v where e: "e = (k, v)"
    by (cases e)
  from Cons.prems e have s: "is_scalar v" and fresh: "k \<notin> fst ` set out"
    by auto
  from Cons.prems e have "distinct (map fst ((out @ [(k, v)]) @ doc))"
    by auto
  with Cons.IH [of "out @ [(k, v)]"] Cons.prems(1)
  have "flatten '''' doc (out @ [(k, v)]) = (out @ [(k, v)]) @ doc"
    by simp
  with s fresh e show ?case
    by (cases v) (simp_all add: is_scalar_def update_fresh)
qed

text \<open>
  Claim C3. For a flat map with scalar values whose keys are all plain, \<^const>\<open>unflatten\<close>
  returns a document, and flattening that document, in whatever order its entries are
  visited, gives the flat map back.
\<close>

theorem scalar_round_trip:
  assumes "distinct (map fst m)"
    and "\<forall>e\<in>set m. plain_key (fst e) \<and> is_scalar (snd e)"
  shows "\<exists>root. unflatten m = Inr root \<and>
           (\<forall>root'. mset root' = mset root \<longrightarrow> map_of (flatten '''' root' []) = map_of m)"
proof -
  from assms have u: "unflatten m = Inr m"
    using unflatten_loop_plain [of m "[]"] by (simp add: unflatten_def)
  have "map_of (flatten '''' root' []) = map_of m" if p: "mset root' = mset m" for root'
  proof -
    from p have s: "set root' = set m"
      by (rule mset_eq_setD)
    from p have "mset (map fst root') = mset (map fst m)"
      by simp
    with assms(1) have d: "distinct (map fst root')"
      by (metis mset_eq_imp_distinct_iff)
    with s assms(2) have "flatten '''' root' [] = root'"
      using flatten_scalars [of root' "[]"] by simp
    moreover from d assms(1) s have "map_of root' = map_of m"
      by (simp add: map_of_inject_set)
    ultimately show ?thesis
      by simp
  qed
  with u show ?thesis
    by blast
qed

theorem scalar_round_trip_witness:
  "\<exists>root. unflatten [(''b'', VStr ''2''), (''item[x]'', VNum 1), (''a'', VNull)] = Inr root \<and>
      map_of (flatten '''' (rev root) []) ''item[x]'' = Some (VNum 1) \<and>
      map_of (flatten '''' (rev root) []) ''zz'' = None"
proof -
  have d: "distinct (map fst [(''b'', VStr ''2''), (''item[x]'', VNum 1), (''a'', VNull)])"
    by simp
  have p: "\<forall>e\<in>set [(''b'', VStr ''2''), (''item[x]'', VNum 1), (''a'', VNull)].
             plain_key (fst e) \<and> is_scalar (snd e)"
    by code_simp
  from scalar_round_trip [OF d p] obtain root where
    r: "unflatten [(''b'', VStr ''2''), (''item[x]'', VNum 1), (''a'', VNull)] = Inr root"
    and f: "\<And>root'. mset root' = mset root \<Longrightarrow> map_of (flatten '''' root' []) =
              map_of [(''b'', VStr ''2''), (''item[x]'', VNum 1), (''a'', VNull)]"
    by blast
  have "map_of (flatten '''' (rev root) []) =
          map_of [(''b'', VStr ''2''), (''item[x]'', VNum 1), (''a'', VNull)]"
    by (rule f) simp
  with r show ?thesis
    by simp
qed

section \<open>Order in which the entries are visited\<close>


subsection \<open>Lists grown with placeholders\<close>








subsection \<open>Entering and leaving a segment\<close>

lemma old_list_upd_same [simp]: "old_list (m(k \<mapsto> DList l)) k = l"
  by (simp add: old_list_def)

lemma old_list_upd_other [simp]: "k \<noteq> k' \<Longrightarrow> old_list (m(k' \<mapsto> x)) k = old_list m k"
  by (simp add: old_list_def)





lemma indep_Nil2 [simp]: "indep p [] = False"
  by (cases p) simp_all

lemma sep_sym: "sep s t \<Longrightarrow> sep t s"
  by (cases s; cases t; cases "snd s"; cases "snd t") auto

lemma indep_sym: "indep p q \<Longrightarrow> indep q p"
  by (induction p q rule: indep.induct) (auto dest: sep_sym)

subsection \<open>One key on a fitting map\<close>

lemma good_path_Cons [simp]: "good_path (s # p) \<longleftrightarrow> good_index s \<and> good_path p"
  by (simp add: good_path_def)

lemma good_path_Nil [simp]: "good_path []"
  by (simp add: good_path_def)







subsection \<open>The inner loop on documents up to order\<close>



lemma docmap_of_Nil [simp]: "docmap_of [] = Map.empty"
  by (simp add: docmap_of_def)


lemma doc_of_VMap [simp]: "doc_of (VMap m) = DMap (docmap_of m)"
  by (simp add: docmap_of_def)

declare doc_of.simps(6) [simp del]


lemma returned_Inl [simp]: "returned (Inl e) = None"
  by (simp add: returned_def)









subsection \<open>Permuting the entries\<close>








end
